theory Spec2Isabelle
  imports Main "HOL-Library.Word"
begin

unbundle bit_operations_syntax

section \<open>Go values, errors, panics and effects\<close>

type_synonym byte = "8 word"

text \<open>
  A Go \<^verbatim>\<open>error\<close> value: \<^verbatim>\<open>errors.New(m)\<close> and \<^verbatim>\<open>fmt.Errorf("%s", x)\<close> carry a message;
  \<^verbatim>\<open>fmt.Errorf(p + ": %w", err)\<close> wraps \<^verbatim>\<open>err\<close> under the prefix \<^verbatim>\<open>p\<close>.
  \<open>DecryptionError\<close> is the error the specification names for the payload cipher.
\<close>

datatype goerr = ErrMsg string | ErrWrap string goerr | DecryptionError

text \<open>A Go call either returns or panics with a value (here: its message).\<close>

datatype 'a res = Panic string | Ret 'a

text \<open>
  The effects parseDataUplink has on its collaborators, in the order they happen: a line
  written by the logger, a file read, an interpreter instance created.
\<close>

datatype event = Infof string | ReadFile string | OttoNew

type_synonym 'a io = "'a res \<times> event list"

definition ret :: "'a \<Rightarrow> 'a io" where
  "ret x = (Ret x, [])"

definition emit :: "event \<Rightarrow> unit io" where
  "emit e = (Ret (), [e])"

text \<open>Sequencing: a panic stops the rest; the effects so far remain.\<close>

definition bindP :: "'a res \<Rightarrow> ('a \<Rightarrow> 'b res) \<Rightarrow> 'b res" where
  "bindP r f = (case r of Panic p \<Rightarrow> Panic p | Ret a \<Rightarrow> f a)"

definition bindIO :: "'a io \<Rightarrow> ('a \<Rightarrow> 'b io) \<Rightarrow> 'b io" where
  "bindIO m f =
     (case m of
        (Panic p, t) \<Rightarrow> (Panic p, t)
      | (Ret a, t) \<Rightarrow> (case f a of (r, t') \<Rightarrow> (r, t @ t')))"

definition liftP :: "'a res \<Rightarrow> 'a io" where
  "liftP r = (r, [])"

text \<open>
  A value of type \<^verbatim>\<open>interface{}\<close>, by its dynamic type: \<^verbatim>\<open>nil\<close>, \<^verbatim>\<open>bool\<close>, an integer,
  \<^verbatim>\<open>string\<close>, \<^verbatim>\<open>uint8\<close>, \<^verbatim>\<open>[]byte\<close>, \<^verbatim>\<open>[]interface{}\<close> and
  \<^verbatim>\<open>map[string]interface{}\<close> (its entries as an association list). The code looks at
  nothing but the dynamic type of the outermost value, so floating-point numbers are left out.
\<close>

datatype goval =
    VNil
  | VBool bool
  | VInt int
  | VString string
  | VUint8 byte
  | VBytes "byte list"
  | VSlice "goval list"
  | VMap "(string \<times> goval) list"

text \<open>
  A result of type \<^verbatim>\<open>map[string]interface{}\<close>: \<open>None\<close> is the nil map,
  \<open>Some []\<close> the empty map \<^verbatim>\<open>map[string]interface{}{}\<close>.
\<close>

type_synonym readings = "(string \<times> goval) list option"

section \<open>Byte slices\<close>

text \<open>
  A \<^verbatim>\<open>[]byte\<close> has a length and a capacity. \<open>elems\<close> are the bytes below the length,
  \<open>spare\<close> the bytes of the underlying array between length and capacity. Indexing
  \<^verbatim>\<open>s[i]\<close> panics unless \<^verbatim>\<open>i < len(s)\<close>; slicing \<^verbatim>\<open>s[lo:hi]\<close> panics unless
  \<^verbatim>\<open>0 <= lo <= hi <= cap(s)\<close>, and may reach into the spare bytes.
\<close>

record goslice =
  elems :: "byte list"
  spare :: "byte list"

definition slen :: "goslice \<Rightarrow> nat" where
  "slen s = length (elems s)"

definition scap :: "goslice \<Rightarrow> nat" where
  "scap s = length (elems s) + length (spare s)"

definition backing :: "goslice \<Rightarrow> byte list" where
  "backing s = elems s @ spare s"

definition index :: "goslice \<Rightarrow> nat \<Rightarrow> byte res" where
  "index s i = (if i < slen s then Ret (elems s ! i) else Panic ''index out of range'')"

definition sliceOf :: "goslice \<Rightarrow> int \<Rightarrow> int \<Rightarrow> goslice res" where
  "sliceOf s lo hi =
     (if 0 \<le> lo \<and> lo \<le> hi \<and> hi \<le> int (scap s)
      then Ret \<lparr>elems = take (nat hi - nat lo) (drop (nat lo) (backing s)),
                spare = drop (nat hi) (backing s)\<rparr>
      else Panic ''slice bounds out of range'')"

text \<open>A slice literal: length and capacity agree.\<close>

definition bytesOf :: "byte list \<Rightarrow> goslice" where
  "bytesOf bs = \<lparr>elems = bs, spare = []\<rparr>"

text \<open>
  \<^verbatim>\<open>binary.LittleEndian.Uint16(b)\<close>: \<^verbatim>\<open>_ = b[1]; return uint16(b[0]) | uint16(b[1])<<8\<close>.
\<close>

definition Uint16 :: "goslice \<Rightarrow> 16 word res" where
  "Uint16 b =
     bindP (index b 1) (\<lambda>_.
     bindP (index b 0) (\<lambda>b0.
     bindP (index b 1) (\<lambda>b1.
     Ret (ucast b0 OR push_bit 8 (ucast b1)))))"

section \<open>Devices and the registry\<close>

text \<open>
  \<^verbatim>\<open>node.Node\<close>: the fields of the struct that hold data; \<open>name\<close> is
  \<^verbatim>\<open>Name().Name\<close> of the embedded \<^verbatim>\<open>resource.Named\<close>. Byte-slice fields are given by
  their contents.
\<close>

record Node =
  name :: string
  DecoderPath :: string
  nwkSKey :: "byte list"
  AppSKey :: "byte list"
  AppKey :: "byte list"
  Addr :: "byte list"
  DevEui :: "byte list"

text \<open>
  \<^verbatim>\<open>Gateway.devices\<close> is a \<^verbatim>\<open>map[string]*node.Node\<close>. Go ranges over a map in an
  unspecified order: the list is the registry in the order this range visits it, every
  pointer non-nil.
\<close>

record Gateway =
  devices :: "(string \<times> Node) list"

fun matchDeviceAddr :: "byte list \<Rightarrow> (string \<times> Node) list \<Rightarrow> goerr + Node" where
  "matchDeviceAddr devAddr [] = Inl (ErrMsg ''no match'')"
| "matchDeviceAddr devAddr ((k, dev) # rest) =
     (if devAddr = Addr dev then Inr dev else matchDeviceAddr devAddr rest)"

section \<open>Frame fields\<close>

text \<open>
  Modelled from the spec: reverseByteArray is called by parseDataUplink and defined in a
  file that is not among the sources. The specification says the device address bytes
  are reversed, from least-significant-byte first on the wire to most-significant-byte
  first.
\<close>

definition reverseByteArray :: "goslice \<Rightarrow> byte list" where
  "reverseByteArray b = rev (elems b)"

text \<open>Lines 22 to 25 of parseDataUplink: the device address, reordered.\<close>

definition devAddrBEOf :: "goslice \<Rightarrow> byte list res" where
  "devAddrBEOf phyPayload =
     bindP (sliceOf phyPayload 1 5) (\<lambda>devAddr. Ret (reverseByteArray devAddr))"

record frame =
  fr_foptsLength :: byte
  fr_frameCnt :: "16 word"
  fr_fPort :: byte
  fr_framePayload :: goslice

text \<open>
  Lines 35 to 50 of parseDataUplink. \<^verbatim>\<open>foptsLength\<close> is a \<^verbatim>\<open>uint8\<close>, so
  \<^verbatim>\<open>8+foptsLength\<close> is computed in 8 bits; \<^verbatim>\<open>len(phyPayload)-4\<close> is an \<^verbatim>\<open>int\<close> and
  may be negative.
\<close>

definition frameFieldsOf :: "goslice \<Rightarrow> frame res" where
  "frameFieldsOf phyPayload =
     bindP (index phyPayload 5) (\<lambda>fctrl.
     let foptsLength = fctrl AND 0x0F in
     bindP (sliceOf phyPayload 6 8) (\<lambda>cntBytes.
     bindP (Uint16 cntBytes) (\<lambda>frameCnt.
     bindP (if foptsLength \<noteq> 0
            then sliceOf phyPayload 8 (uint (8 + foptsLength))
            else Ret phyPayload) (\<lambda>_.
     bindP (index phyPayload (unat (8 + foptsLength))) (\<lambda>fPort.
     bindP (sliceOf phyPayload (uint (8 + foptsLength + 1)) (int (slen phyPayload) - 4))
       (\<lambda>framePayload.
     Ret \<lparr>fr_foptsLength = foptsLength, fr_frameCnt = frameCnt, fr_fPort = fPort,
          fr_framePayload = framePayload\<rparr>))))))"

section \<open>Payload cipher\<close>

text \<open>
  \<^verbatim>\<open>types.AES128Key(device.AppSKey)\<close> converts a slice to a \<^verbatim>\<open>[16]byte\<close> array: Go
  panics when the slice is shorter than the array and takes the first 16 bytes otherwise.
\<close>

definition toAES128Key :: "byte list \<Rightarrow> byte list res" where
  "toAES128Key bs =
     (if length bs < 16 then Panic ''cannot convert slice to array: length too short''
      else Ret (take 16 bs))"

text \<open>
  \<^verbatim>\<open>types.MustDevAddr\<close> belongs to the LoRaWAN stack library: it panics unless it is
  given the 4 bytes of a device address.
\<close>

definition MustDevAddr :: "byte list \<Rightarrow> byte list res" where
  "MustDevAddr b = (if length b = 4 then Ret b else Panic ''invalid DevAddr length'')"

text \<open>
  The block cipher is a parameter \<open>aes key block\<close>. Its output is written into a 16-byte
  array that starts out zeroed.
\<close>

type_synonym blockcipher = "byte list \<Rightarrow> byte list \<Rightarrow> byte list"

definition cipherBlock :: "blockcipher \<Rightarrow> byte list \<Rightarrow> byte list \<Rightarrow> byte list" where
  "cipherBlock aes key a = take 16 (aes key a @ replicate 16 0)"

definition le32 :: "32 word \<Rightarrow> byte list" where
  "le32 w = [ucast w, ucast (drop_bit 8 w), ucast (drop_bit 16 w), ucast (drop_bit 24 w)]"

text \<open>
  Modelled from the spec: crypto.DecryptUplink and the uplink-encryption routine that
  cooperates with it belong to the LoRaWAN stack library, which is not among the sources.
  The specification (4.3) gives the algorithm: counter blocks of 16 bytes that hold a
  fixed direction tag (uplink), the device address, the frame counter and an incrementing
  block index are encrypted one by one under the key; the encrypted blocks, concatenated
  and cut to the length of the input, are XORed byte for byte against it. The call fails
  with a decryption error on a key of malformed length, and only then.
\<close>

definition counterBlock :: "byte list \<Rightarrow> 32 word \<Rightarrow> nat \<Rightarrow> byte list" where
  "counterBlock addr fCnt i =
     [0x01, 0, 0, 0, 0, 0] @ rev addr @ le32 fCnt @ [0, of_nat (i + 1)]"

definition keystream :: "blockcipher \<Rightarrow> byte list \<Rightarrow> byte list \<Rightarrow> 32 word \<Rightarrow> nat \<Rightarrow> byte list" where
  "keystream aes key addr fCnt n =
     concat (map (\<lambda>i. cipherBlock aes key (counterBlock addr fCnt i)) [0..<(n + 15) div 16])"

definition xorBytes :: "byte list \<Rightarrow> byte list \<Rightarrow> byte list" where
  "xorBytes payload ks = map (\<lambda>(p, k). p XOR k) (zip payload ks)"

definition uplinkCipher ::
  "blockcipher \<Rightarrow> byte list \<Rightarrow> byte list \<Rightarrow> 32 word \<Rightarrow> byte list \<Rightarrow> goerr + byte list" where
  "uplinkCipher aes key addr fCnt payload =
     (if length key \<noteq> 16 then Inl DecryptionError
      else Inr (xorBytes payload
                  (take (length payload) (keystream aes key addr fCnt (length payload)))))"

definition DecryptUplink ::
  "blockcipher \<Rightarrow> byte list \<Rightarrow> byte list \<Rightarrow> 32 word \<Rightarrow> byte list \<Rightarrow> goerr + byte list" where
  "DecryptUplink = uplinkCipher"

definition EncryptUplink ::
  "blockcipher \<Rightarrow> byte list \<Rightarrow> byte list \<Rightarrow> 32 word \<Rightarrow> byte list \<Rightarrow> goerr + byte list" where
  "EncryptUplink = uplinkCipher"

text \<open>
  Lines 52 to 55 of parseDataUplink: \<^verbatim>\<open>MustDevAddr\<close>, then the arguments of
  \<^verbatim>\<open>crypto.DecryptUplink\<close> from left to right, then the call.
\<close>

definition decryptStep ::
  "blockcipher \<Rightarrow> Node \<Rightarrow> byte list \<Rightarrow> 16 word \<Rightarrow> goslice \<Rightarrow> (goerr + byte list) res" where
  "decryptStep aes device devAddrBE frameCnt framePayload =
     bindP (MustDevAddr devAddrBE) (\<lambda>dAddr.
     bindP (toAES128Key (AppSKey device)) (\<lambda>key.
     Ret (DecryptUplink aes key dAddr (ucast frameCnt) (elems framePayload))))"

section \<open>Sandboxed decoder\<close>

text \<open>
  The otto interpreter is a library; the decoder is modelled over any interpreter, given
  by what its calls return. \<open>'vm\<close> is the state of an interpreter instance, \<open>'val\<close> an
  \<^verbatim>\<open>otto.Value\<close>. Every call may panic. \<open>otto_Run\<close> is the whole of \<^verbatim>\<open>vm.Run(script)\<close>
  as the caller sees it, with whatever arrives on \<^verbatim>\<open>vm.Interrupt\<close> meanwhile: the
  goroutine that sleeps 10 ms and then sends on that channel has no other effect on
  executeDecoder, and time is not part of this model.
\<close>

record ('vm, 'val) otto =
  otto_New :: "'vm res"
  otto_SetStackDepthLimit :: "'vm \<Rightarrow> nat \<Rightarrow> 'vm res"
  otto_Set :: "'vm \<Rightarrow> string \<Rightarrow> goval \<Rightarrow> ('vm \<times> goerr option) res"
  otto_Run :: "'vm \<Rightarrow> string \<Rightarrow> ('val \<times> goerr option) res"
  otto_Export :: "'val \<Rightarrow> (goval \<times> goerr option) res"

text \<open>
  The loop over \<^verbatim>\<open>vars\<close> (lines 128 to 132): the bindings in the order the range
  visits them; \<open>Inl err\<close> is the early \<^verbatim>\<open>return nil, err\<close>.
\<close>

fun setVars :: "('vm, 'val) otto \<Rightarrow> 'vm \<Rightarrow> (string \<times> goval) list \<Rightarrow> (goerr + 'vm) res" where
  "setVars vm st [] = Ret (Inr st)"
| "setVars vm st ((k, v) # rest) =
     bindP (otto_Set vm st k v) (\<lambda>(st', err).
       case err of Some e \<Rightarrow> Ret (Inl e) | None \<Rightarrow> setVars vm st' rest)"

text \<open>The body of executeDecoder, lines 124 to 148, without the deferred function.\<close>

definition executeDecoderBody ::
  "('vm, 'val) otto \<Rightarrow> string \<Rightarrow> (string \<times> goval) list \<Rightarrow> (goval \<times> goerr option) io" where
  "executeDecoderBody vm script vars =
     bindIO (emit OttoNew) (\<lambda>_. liftP (
       bindP (otto_New vm) (\<lambda>st0.
       bindP (otto_SetStackDepthLimit vm st0 32) (\<lambda>st1.
       bindP (setVars vm st1 vars) (\<lambda>r.
         case r of
           Inl err \<Rightarrow> Ret (VNil, Some err)
         | Inr st2 \<Rightarrow>
             bindP (otto_Run vm st2 script) (\<lambda>(val, err).
               case err of
                 Some e \<Rightarrow> Ret (VNil, Some e)
               | None \<Rightarrow> otto_Export vm val))))))"

text \<open>
  The deferred function of lines 118 to 122: a panic of the body is recovered, the named
  result \<^verbatim>\<open>out\<close> keeps its zero value and \<^verbatim>\<open>err\<close> becomes \<^verbatim>\<open>fmt.Errorf("%s", caught)\<close>.
\<close>

definition recoverDeferred :: "(goval \<times> goerr option) io \<Rightarrow> (goval \<times> goerr option) io" where
  "recoverDeferred m =
     (case m of
        (Panic caught, t) \<Rightarrow> (Ret (VNil, Some (ErrMsg caught)), t)
      | (Ret r, t) \<Rightarrow> (Ret r, t))"

definition executeDecoder ::
  "('vm, 'val) otto \<Rightarrow> string \<Rightarrow> (string \<times> goval) list \<Rightarrow> (goval \<times> goerr option) io" where
  "executeDecoder vm script vars = recoverDeferred (executeDecoderBody vm script vars)"

text \<open>
  convertBinaryToMap. Line 94 appends the call of the entry point to the script; lines
  96 to 99 build the bindings, listed here in the order they are stored. The type switch
  of lines 106 to 110 lets \<^verbatim>\<open>map[string]interface{}\<close> through and nothing else.
\<close>

definition wrapScript :: "string \<Rightarrow> string" where
  "wrapScript decodeScript =
     decodeScript @ [CHR 0x0A, CHR 0x0A] @ ''Decode(fPort, bytes);'' @ [CHR 0x0A]"

definition decoderVars :: "byte \<Rightarrow> byte list \<Rightarrow> (string \<times> goval) list" where
  "decoderVars fPort b = [(''fPort'', VUint8 fPort), (''bytes'', VBytes b)]"

definition convertBinaryToMap ::
  "('vm, 'val) otto \<Rightarrow> byte \<Rightarrow> string \<Rightarrow> byte list \<Rightarrow> (readings \<times> goerr option) io" where
  "convertBinaryToMap vm fPort decodeScript b =
     bindIO (executeDecoder vm (wrapScript decodeScript) (decoderVars fPort b)) (\<lambda>(v, err).
       case err of
         Some e \<Rightarrow> ret (None, Some e)
       | None \<Rightarrow>
           (case v of
              VMap m \<Rightarrow> ret (Some m, None)
            | _ \<Rightarrow> ret (Some [], Some (ErrMsg ''decoder returned unexpected data type''))))"

text \<open>
  decodePayload. \<open>fs\<close> is \<^verbatim>\<open>os.ReadFile\<close> followed by the conversion to a string. The
  error of convertBinaryToMap is assigned to \<^verbatim>\<open>err\<close> and line 89 returns \<^verbatim>\<open>nil\<close>.
\<close>

type_synonym filesystem = "string \<Rightarrow> goerr + string"

definition decodePayload ::
  "filesystem \<Rightarrow> ('vm, 'val) otto \<Rightarrow> byte \<Rightarrow> string \<Rightarrow> byte list \<Rightarrow> (readings \<times> goerr option) io" where
  "decodePayload fs vm fPort path data =
     bindIO (emit (ReadFile path)) (\<lambda>_.
       case fs path of
         Inl err \<Rightarrow> ret (Some [], Some err)
       | Inr fileContent \<Rightarrow>
           bindIO (convertBinaryToMap vm fPort fileContent data) (\<lambda>(readingsMap, err).
             ret (readingsMap, None)))"

section \<open>Uplink pipeline\<close>

text \<open>Lines 52 to 66 of parseDataUplink: decrypt, decode, return.\<close>

definition decryptAndDecode ::
  "blockcipher \<Rightarrow> filesystem \<Rightarrow> ('vm, 'val) otto \<Rightarrow> Node \<Rightarrow> byte list \<Rightarrow> frame
     \<Rightarrow> (string \<times> readings \<times> goerr option) io" where
  "decryptAndDecode aes fs vm device devAddrBE f =
     bindIO (liftP (decryptStep aes device devAddrBE (fr_frameCnt f) (fr_framePayload f))) (\<lambda>d.
       case d of
         Inl err \<Rightarrow>
           ret ('''', Some [], Some (ErrWrap ''error while decrypting uplink message'' err))
       | Inr decryptedPayload \<Rightarrow>
           bindIO (decodePayload fs vm (fr_fPort f) (DecoderPath device) decryptedPayload)
             (\<lambda>(readings, err).
               case err of
                 Some e \<Rightarrow> ret ('''', Some [], Some (ErrWrap ''Error decoding payload'' e))
               | None \<Rightarrow> ret (name device, readings, None)))"

text \<open>parseDataUplink, lines 20 to 67.\<close>

definition parseDataUplink ::
  "blockcipher \<Rightarrow> filesystem \<Rightarrow> ('vm, 'val) otto \<Rightarrow> Gateway \<Rightarrow> goslice
     \<Rightarrow> (string \<times> readings \<times> goerr option) io" where
  "parseDataUplink aes fs vm g phyPayload =
     bindIO (liftP (devAddrBEOf phyPayload)) (\<lambda>devAddrBE.
       case matchDeviceAddr devAddrBE (devices g) of
         Inl err \<Rightarrow>
           bindIO (emit (Infof ''received packet from unknown device, ignoring'')) (\<lambda>_.
             ret ('''', Some [], None))
       | Inr device \<Rightarrow>
           bindIO (liftP (frameFieldsOf phyPayload)) (\<lambda>f.
             decryptAndDecode aes fs vm device devAddrBE f))"

section \<open>The frame layout in the words of the specification\<close>

text \<open>
  The fields of a raw frame \<open>bs\<close> as the specification places them: the device address is
  bytes 1 to 4 reversed, the options length the low 4 bits of byte 5, the frame counter
  the little-endian 16-bit number in bytes 6 and 7, the frame port the byte at index
  8 + options length, the payload the bytes from index 9 + options length up to the
  trailing 4-byte integrity tag.
\<close>

definition specDevAddr :: "byte list \<Rightarrow> byte list" where
  "specDevAddr bs = [bs ! 4, bs ! 3, bs ! 2, bs ! 1]"

definition specOptionsLength :: "byte list \<Rightarrow> nat" where
  "specOptionsLength bs = unat (bs ! 5) mod 16"

definition specFrameCounter :: "byte list \<Rightarrow> nat" where
  "specFrameCounter bs = unat (bs ! 6) + 256 * unat (bs ! 7)"

definition specFramePort :: "byte list \<Rightarrow> byte" where
  "specFramePort bs = bs ! (8 + specOptionsLength bs)"

definition specFramePayload :: "byte list \<Rightarrow> byte list" where
  "specFramePayload bs = map ((!) bs) [9 + specOptionsLength bs ..< length bs - 4]"

text \<open>
  A flat string-keyed mapping, in the words of the specification: a mapping whose values
  are scalars, none of them a list or a mapping in turn.
\<close>

fun scalar :: "goval \<Rightarrow> bool" where
  "scalar (VBytes bs) = False"
| "scalar (VSlice vs) = False"
| "scalar (VMap m) = False"
| "scalar v = True"

fun flatMapping :: "goval \<Rightarrow> bool" where
  "flatMapping (VMap m) = list_all (\<lambda>(k, v). scalar v) m"
| "flatMapping v = False"

fun isMapping :: "goval \<Rightarrow> bool" where
  "isMapping (VMap m) = True"
| "isMapping v = False"

text \<open>
  The options length a raw frame announces, when byte 5 is there to announce it (0
  otherwise).
\<close>

definition announcedOptions :: "goslice \<Rightarrow> nat" where
  "announcedOptions raw = (if 5 < slen raw then specOptionsLength (elems raw) else 0)"

section \<open>A gateway with one device\<close>

text \<open>
  The end-to-end example of the specification: a device with address 01 02 03 04, a
  frame with counter 5 and port 1 that carries two bytes of ciphertext. The block cipher
  of the example XORs key and block.
\<close>

definition exampleCipher :: blockcipher where
  "exampleCipher key a = xorBytes key a"

definition exampleKey :: "byte list" where
  "exampleKey = [0x10, 0x11, 0x12, 0x13, 0x14, 0x15, 0x16, 0x17,
                 0x18, 0x19, 0x1A, 0x1B, 0x1C, 0x1D, 0x1E, 0x1F]"

definition exampleDevice :: Node where
  "exampleDevice =
     \<lparr>name = ''sensor1'', DecoderPath = ''/decoders/sensor1.js'', nwkSKey = [],
      AppSKey = exampleKey, AppKey = [], Addr = [0x01, 0x02, 0x03, 0x04], DevEui = []\<rparr>"

definition exampleGateway :: Gateway where
  "exampleGateway = \<lparr>devices = [(''sensor1'', exampleDevice)]\<rparr>"

definition exampleFrame :: goslice where
  "exampleFrame =
     bytesOf [0x40, 0x04, 0x03, 0x02, 0x01, 0x00, 0x05, 0x00, 0x01,
              0xAA, 0xBB, 0xDE, 0xAD, 0xBE, 0xEF]"

text \<open>The same header from a device the gateway does not know, cut after the address.\<close>

definition foreignFrame :: goslice where
  "foreignFrame = bytesOf [0x40, 0x09, 0x09, 0x09, 0x09]"

text \<open>A frame of the known device that ends after the frame-control byte.\<close>

definition shortFrame :: goslice where
  "shortFrame = bytesOf [0x40, 0x04, 0x03, 0x02, 0x01, 0x00]"

definition exampleFS :: filesystem where
  "exampleFS path =
     (if path = ''/decoders/sensor1.js''
      then Inr ''function Decode(fPort, bytes) { return 42; }''
      else Inl (ErrMsg ''open: no such file or directory''))"

text \<open>The same file with a script that refers to a variable nobody defined.\<close>

definition throwingFS :: filesystem where
  "throwingFS path =
     (if path = ''/decoders/sensor1.js''
      then Inr ''function Decode(fPort, bytes) { return missing; }''
      else Inl (ErrMsg ''open: no such file or directory''))"

text \<open>
  What the interpreter does with a script, as far as executeDecoder can tell: the
  instance state is the list of bindings set so far; \<open>scriptReturns v\<close> is a run whose
  value exports to \<open>v\<close>, \<open>scriptThrows m\<close> a run that ends in the error \<open>m\<close>,
  \<open>scriptFaults m\<close> a run during which the interpreter panics with \<open>m\<close>.
\<close>

definition scriptReturns :: "goval \<Rightarrow> ((string \<times> goval) list, goval) otto" where
  "scriptReturns v =
     \<lparr>otto_New = Ret [],
      otto_SetStackDepthLimit = (\<lambda>st n. Ret st),
      otto_Set = (\<lambda>st k x. Ret (st @ [(k, x)], None)),
      otto_Run = (\<lambda>st script. Ret (v, None)),
      otto_Export = (\<lambda>val. Ret (val, None))\<rparr>"

definition scriptThrows :: "string \<Rightarrow> ((string \<times> goval) list, goval) otto" where
  "scriptThrows m =
     \<lparr>otto_New = Ret [],
      otto_SetStackDepthLimit = (\<lambda>st n. Ret st),
      otto_Set = (\<lambda>st k x. Ret (st @ [(k, x)], None)),
      otto_Run = (\<lambda>st script. Ret (VNil, Some (ErrMsg m))),
      otto_Export = (\<lambda>val. Ret (val, None))\<rparr>"

definition scriptFaults :: "string \<Rightarrow> ((string \<times> goval) list, goval) otto" where
  "scriptFaults m =
     \<lparr>otto_New = Ret [],
      otto_SetStackDepthLimit = (\<lambda>st n. Ret st),
      otto_Set = (\<lambda>st k x. Ret (st @ [(k, x)], None)),
      otto_Run = (\<lambda>st script. Panic m),
      otto_Export = (\<lambda>val. Ret (val, None))\<rparr>"

section \<open>Facts about bytes and slices\<close>

lemma unat_b_lt: "unat (b::byte) < 256"
  using unsigned_less[of b] by simp

lemma unat_low4: "unat ((w::byte) AND 0x0F) = unat w mod 16"
proof -
  have "(w AND 0x0F) = take_bit 4 w"
    by (simp add: take_bit_eq_mask mask_eq_exp_minus_1)
  then have "unat (w AND 0x0F) = take_bit 4 (unat w)"
    by (simp only: unsigned_take_bit_eq)
  then show ?thesis by (simp add: take_bit_eq_mod)
qed

lemma unat_ucast_b: "unat (ucast (a::byte) :: 16 word) = unat a"
  using unat_b_lt[of a] by (simp add: unsigned_ucast_eq take_bit_eq_mod) 

lemma unat_push8: "unat (push_bit 8 (ucast (b::byte)) :: 16 word) = 256 * unat b"
proof -
  have "unat (push_bit 8 (ucast b) :: 16 word) = take_bit 16 (push_bit 8 (unat b))"
    by (simp only: unsigned_push_bit_eq unat_ucast_b) simp
  also have "\<dots> = 256 * unat b"
    using unat_b_lt[of b] by (simp add: push_bit_eq_mult take_bit_eq_mod)
  finally show ?thesis .
qed


lemma low4_lt: "unat ((w::byte) AND 0x0F) < 16"
  by (simp add: unat_low4)

lemma unat_8_plus: "unat (8 + ((w::byte) AND 0x0F)) = 8 + unat w mod 16"
  using low4_lt[of w] by (simp add: unat_word_ariths unat_low4)

lemma uint_8_plus: "uint (8 + ((w::byte) AND 0x0F)) = 8 + int (unat w mod 16)"
  using unat_8_plus[of w] by (metis uint_nat of_nat_add of_nat_numeral)

lemma uint_9_plus: "uint (8 + ((w::byte) AND 0x0F) + 1) = 9 + int (unat w mod 16)"
proof -
  have "unat (8 + (w AND 0x0F) + 1) = 9 + unat w mod 16"
    using low4_lt[of w] by (simp add: unat_word_ariths unat_low4)
  then show ?thesis by (metis uint_nat of_nat_add of_nat_numeral)
qed

lemma unat_le16: "unat ((ucast (a::byte) :: 16 word) OR push_bit 8 (ucast (b::byte))) = unat a + 256 * unat b"
proof -
  have "(ucast a :: 16 word) AND push_bit 8 (ucast b) = 0"
    by (rule bit_eqI) (auto simp: bit_simps dest: bit_imp_le_length)
  then have "(ucast a :: 16 word) OR push_bit 8 (ucast b) = ucast a + push_bit 8 (ucast b)"
    by (rule disjunctive_add_eq_or[symmetric])
  moreover have "unat ((ucast a :: 16 word) + push_bit 8 (ucast b)) = unat a + 256 * unat b"
    using unat_b_lt[of a] unat_b_lt[of b]
    by (simp add: unat_word_ariths unat_ucast_b unat_push8)
  ultimately show ?thesis by simp
qed

lemma slice_elems_nth:
  "hi \<le> length xs \<Longrightarrow> lo \<le> hi \<Longrightarrow> take (hi - lo) (drop lo (xs @ ys)) = map ((!) xs) [lo..<hi]"
  by (rule nth_equalityI) (auto simp: nth_append)

lemma four_bytes: "5 \<le> length xs \<Longrightarrow> map ((!) xs) [1..<5] = [xs ! 1, xs ! 2, xs ! 3, xs ! 4]"
  by (simp add: upt_rec eval_nat_numeral)

lemma sliceOf_nat:
  assumes "lo \<le> hi" "hi \<le> slen s"
  shows "sliceOf s (int lo) (int hi) =
     Ret \<lparr>elems = map ((!) (elems s)) [lo..<hi], spare = drop hi (backing s)\<rparr>"
proof -
  have "take (hi - lo) (drop lo (elems s @ spare s)) = map ((!) (elems s)) [lo..<hi]"
    using assms by (intro slice_elems_nth) (simp_all add: slen_def)
  then show ?thesis
    using assms by (simp add: sliceOf_def scap_def slen_def backing_def)
qed

section \<open>Facts about the registry\<close>

lemma matchDeviceAddr_none:
  "\<forall>(k, d) \<in> set devs. Addr d \<noteq> a \<Longrightarrow> matchDeviceAddr a devs = Inl (ErrMsg ''no match'')"
  by (induction devs) auto

lemma matchDeviceAddr_found:
  "matchDeviceAddr a devs = Inr d \<Longrightarrow> d \<in> snd ` set devs \<and> Addr d = a"
  by (induction devs) (auto split: if_splits)

lemma matchDeviceAddr_Inl:
  "matchDeviceAddr a devs = Inl e \<Longrightarrow> e = ErrMsg ''no match''"
  by (induction devs) (auto split: if_splits)

section \<open>Facts about the frame fields\<close>

lemma devAddrBEOf_cap:
  "5 \<le> scap raw \<Longrightarrow> devAddrBEOf raw = Ret (rev (take 4 (drop 1 (backing raw))))"
  by (simp add: devAddrBEOf_def sliceOf_def bindP_def reverseByteArray_def)

lemma devAddrBEOf_small:
  "scap raw < 5 \<Longrightarrow> devAddrBEOf raw = Panic ''slice bounds out of range''"
  by (simp add: devAddrBEOf_def sliceOf_def bindP_def)

lemma devAddr_spec:
  assumes "5 \<le> slen raw"
  shows "rev (take 4 (drop 1 (backing raw))) = specDevAddr (elems raw)"
proof -
  have "take (5 - 1) (drop 1 (elems raw @ spare raw)) = map ((!) (elems raw)) [1..<5]"
    using assms by (intro slice_elems_nth) (simp_all add: slen_def)
  then have "take 4 (drop 1 (backing raw)) = [elems raw ! 1, elems raw ! 2, elems raw ! 3, elems raw ! 4]"
    using assms four_bytes[of "elems raw"] by (simp add: backing_def slen_def)
  then show ?thesis
    by (simp add: specDevAddr_def)
qed

lemma devAddrBEOf_len:
  "5 \<le> slen raw \<Longrightarrow> devAddrBEOf raw = Ret (specDevAddr (elems raw))"
  using devAddrBEOf_cap[of raw] devAddr_spec[of raw] by (simp add: slen_def scap_def)

lemma Uint16_two:
  "Uint16 \<lparr>elems = [a, b], spare = sp\<rparr> = Ret (ucast a OR push_bit 8 (ucast b))"
  by (simp add: Uint16_def index_def slen_def bindP_def)

lemma cnt_slice:
  assumes "8 \<le> slen raw"
  shows "sliceOf raw 6 8 = Ret \<lparr>elems = [elems raw ! 6, elems raw ! 7], spare = drop 8 (backing raw)\<rparr>"
  using assms sliceOf_nat[of 6 8 raw] by (simp add: upt_rec)

lemma frameFieldsOf_ok:
  assumes len: "13 + specOptionsLength (elems raw) \<le> slen raw"
  shows "frameFieldsOf raw =
     Ret \<lparr>fr_foptsLength = elems raw ! 5 AND 0x0F,
          fr_frameCnt = ucast (elems raw ! 6) OR push_bit 8 (ucast (elems raw ! 7)),
          fr_fPort = specFramePort (elems raw),
          fr_framePayload = \<lparr>elems = specFramePayload (elems raw),
                             spare = drop (slen raw - 4) (backing raw)\<rparr>\<rparr>"
proof -
  define n where "n = specOptionsLength (elems raw)"
  define w where "w = elems raw ! 5"
  have n: "unat w mod 16 = n" by (simp add: n_def w_def specOptionsLength_def)
  have i5: "index raw 5 = Ret w" using len by (simp add: index_def w_def)
  have s68: "sliceOf raw 6 8 = Ret \<lparr>elems = [elems raw ! 6, elems raw ! 7], spare = drop 8 (backing raw)\<rparr>"
    using len by (intro cnt_slice) simp
  have opt: "\<exists>s. (if w AND 0x0F \<noteq> 0 then sliceOf raw 8 (uint (8 + (w AND 0x0F))) else Ret raw) = Ret s"
    using len n by (simp add: sliceOf_def uint_8_plus scap_def slen_def n_def)
  have port: "index raw (unat (8 + (w AND 0x0F))) = Ret (specFramePort (elems raw))"
    using len n by (simp add: index_def unat_8_plus specFramePort_def n_def)
  have a1: "uint (8 + (w AND 0x0F) + 1) = int (9 + n)"
    using n by (simp only: uint_9_plus)
  have a2: "int (slen raw) - 4 = int (slen raw - 4)"
    using len by simp
  have "sliceOf raw (int (9 + n)) (int (slen raw - 4)) =
      Ret \<lparr>elems = map ((!) (elems raw)) [9 + n..<length (elems raw) - 4],
           spare = drop (slen raw - 4) (backing raw)\<rparr>"
    using len sliceOf_nat[of "9 + n" "slen raw - 4" raw] by (simp add: n_def slen_def)
  then have pay: "sliceOf raw (uint (8 + (w AND 0x0F) + 1)) (int (slen raw) - 4) =
      Ret \<lparr>elems = specFramePayload (elems raw), spare = drop (slen raw - 4) (backing raw)\<rparr>"
    by (simp only: a1 a2 specFramePayload_def n_def)
  from opt obtain s where opt':
    "(if w AND 0x0F \<noteq> 0 then sliceOf raw 8 (uint (8 + (w AND 0x0F))) else Ret raw) = Ret s" ..
  show ?thesis
    unfolding frameFieldsOf_def
    by (simp only: i5 bindP_def res.case Let_def s68 Uint16_two opt' port pay w_def[symmetric])
qed

lemma frameFieldsOf_short:
  assumes "slen raw < 13 + announcedOptions raw"
  shows "\<exists>m. frameFieldsOf raw = Panic m"
proof (cases "5 < slen raw")
  case False
  then show ?thesis by (simp add: frameFieldsOf_def index_def bindP_def)
next
  case True
  define w where "w = elems raw ! 5"
  define n where "n = unat w mod 16"
  have i5: "index raw 5 = Ret w" using True by (simp add: index_def w_def)
  have short: "slen raw < 13 + n"
    using assms True by (simp add: announcedOptions_def specOptionsLength_def n_def w_def)
  have "\<not> (uint (8 + (w AND 0x0F) + 1) \<le> int (slen raw) - 4)"
    using short by (simp only: uint_9_plus n_def)
  then have pay: "sliceOf raw (uint (8 + (w AND 0x0F) + 1)) (int (slen raw) - 4)
      = Panic ''slice bounds out of range''"
    by (simp only: sliceOf_def) simp
  show ?thesis
    unfolding frameFieldsOf_def
    by (simp only: i5 bindP_def res.case Let_def pay split: res.split) simp
qed

section \<open>Facts about the payload cipher\<close>

lemma length_cipherBlock: "length (cipherBlock aes key a) = 16"
  by (simp add: cipherBlock_def)

lemma length_concat_blocks:
  "(\<And>x. x \<in> set xs \<Longrightarrow> length (f x) = c) \<Longrightarrow> length (concat (map f xs)) = c * length xs"
  by (induction xs) auto

lemma length_keystream: "length (keystream aes key addr fCnt n) = 16 * ((n + 15) div 16)"
  unfolding keystream_def
  by (subst length_concat_blocks[where c = 16]) (simp_all add: length_cipherBlock)

lemma keystream_covers: "n \<le> length (keystream aes key addr fCnt n)"
  unfolding length_keystream by presburger

lemma length_xorBytes: "length (xorBytes p ks) = min (length p) (length ks)"
  by (simp add: xorBytes_def)

lemma xorBytes_cancel: "length p \<le> length ks \<Longrightarrow> xorBytes (xorBytes p ks) ks = p"
proof (induction p arbitrary: ks)
  case Nil
  then show ?case by (simp add: xorBytes_def)
next
  case (Cons x p)
  then obtain k ks' where ks: "ks = k # ks'" by (cases ks) auto
  with Cons show ?case by (simp add: xorBytes_def xor.assoc)
qed

lemma uplinkCipher_involution:
  assumes "length key = 16"
  shows "\<exists>ct. uplinkCipher aes key addr fCnt pt = Inr ct \<and> length ct = length pt
            \<and> uplinkCipher aes key addr fCnt ct = Inr pt"
proof -
  define ks where "ks = take (length pt) (keystream aes key addr fCnt (length pt))"
  have lks: "length ks = length pt"
    using keystream_covers[of "length pt" aes key addr fCnt] by (simp add: ks_def)
  define ct where "ct = xorBytes pt ks"
  have lct: "length ct = length pt" by (simp add: ct_def length_xorBytes lks)
  have "uplinkCipher aes key addr fCnt pt = Inr ct"
    using assms by (simp add: uplinkCipher_def ct_def ks_def)
  moreover have "uplinkCipher aes key addr fCnt ct = Inr (xorBytes ct ks)"
    using assms by (simp add: uplinkCipher_def lct ks_def)
  moreover have "xorBytes ct ks = pt"
    unfolding ct_def by (rule xorBytes_cancel) (simp add: lks)
  ultimately show ?thesis using lct by simp
qed

lemma decryptStep_ok:
  assumes "length devAddrBE = 4" "16 \<le> length (AppSKey device)"
  shows "\<exists>pt. decryptStep aes device devAddrBE cnt ct = Ret (Inr pt) \<and> length pt = slen ct"
proof -
  obtain pt where "uplinkCipher aes (take 16 (AppSKey device)) devAddrBE (ucast cnt) (elems ct) = Inr pt"
      "length pt = length (elems ct)"
    using uplinkCipher_involution[of "take 16 (AppSKey device)" aes devAddrBE "ucast cnt" "elems ct"] assms
    by auto
  then show ?thesis
    using assms by (simp add: decryptStep_def MustDevAddr_def toAES128Key_def bindP_def DecryptUplink_def slen_def)
qed

lemma decryptStep_short_key:
  assumes "length devAddrBE = 4" "length (AppSKey device) < 16"
  shows "decryptStep aes device devAddrBE cnt ct = Panic ''cannot convert slice to array: length too short''"
  using assms by (simp add: decryptStep_def MustDevAddr_def toAES128Key_def bindP_def)

section \<open>Facts about the pipeline\<close>

lemma parse_small:
  "scap raw < 5 \<Longrightarrow> parseDataUplink aes fs vm g raw = (Panic ''slice bounds out of range'', [])"
  by (simp add: parseDataUplink_def devAddrBEOf_small liftP_def bindIO_def)

lemma parse_unknown:
  assumes "5 \<le> scap raw"
    and "matchDeviceAddr (rev (take 4 (drop 1 (backing raw)))) (devices g) = Inl e"
  shows "parseDataUplink aes fs vm g raw =
     (Ret ('''', Some [], None), [Infof ''received packet from unknown device, ignoring''])"
  using assms
  by (simp add: parseDataUplink_def devAddrBEOf_cap liftP_def bindIO_def emit_def ret_def)

lemma parse_known:
  assumes "5 \<le> scap raw"
    and "matchDeviceAddr (rev (take 4 (drop 1 (backing raw)))) (devices g) = Inr device"
  shows "parseDataUplink aes fs vm g raw =
     bindIO (liftP (frameFieldsOf raw))
       (decryptAndDecode aes fs vm device (rev (take 4 (drop 1 (backing raw)))))"
  using assms
  by (simp add: parseDataUplink_def devAddrBEOf_cap liftP_def bindIO_def)

lemma parse_known_short:
  assumes "5 \<le> scap raw"
    and "matchDeviceAddr (rev (take 4 (drop 1 (backing raw)))) (devices g) = Inr device"
    and "slen raw < 13 + announcedOptions raw"
  shows "\<exists>m. parseDataUplink aes fs vm g raw = (Panic m, [])"
proof -
  obtain m where "frameFieldsOf raw = Panic m"
    using frameFieldsOf_short[OF assms(3)] by blast
  then show ?thesis
    by (simp add: parse_known[OF assms(1,2)] liftP_def bindIO_def)
qed

section \<open>Facts about the decoder\<close>

lemma executeDecoder_returns:
  "\<exists>out err t. executeDecoder vm script vars = (Ret (out, err), t)"
  unfolding executeDecoder_def recoverDeferred_def
  by (cases "executeDecoderBody vm script vars"; simp split: res.split; force)

lemma convertBinaryToMap_returns:
  "\<exists>r e t. convertBinaryToMap vm fPort s b = (Ret (r, e), t)"
proof -
  obtain out err t where "executeDecoder vm (wrapScript s) (decoderVars fPort b) = (Ret (out, err), t)"
    using executeDecoder_returns by blast
  then show ?thesis
    by (simp add: convertBinaryToMap_def bindIO_def ret_def split: option.split goval.split)
qed

lemma decodePayload_drops_error:
  assumes "fs path = Inr content"
    and "convertBinaryToMap vm fPort content data = (Ret (r, e), t)"
  shows "decodePayload fs vm fPort path data = (Ret (r, None), ReadFile path # t)"
  using assms by (simp add: decodePayload_def bindIO_def emit_def ret_def)

lemma decodePayload_unreadable:
  assumes "fs path = Inl err"
  shows "decodePayload fs vm fPort path data = (Ret (Some [], Some err), [ReadFile path])"
  using assms by (simp add: decodePayload_def bindIO_def emit_def ret_def)

section \<open>Frames of unknown devices\<close>

text \<open>
  C3. A raw frame that has its address bytes (length at least 5) and whose bytes 1 to 4,
  reversed, are the address of no device in the registry: parseDataUplink returns the
  empty device name, the empty readings mapping and a nil error. The only effect is the
  one line of the logger: no file is read and no interpreter is created, and the result
  is the same whatever the cipher, the file system and the interpreter are.
\<close>

theorem unknown_device_dropped:
  assumes "5 \<le> slen raw"
    and "\<forall>(k, d) \<in> set (devices g). Addr d \<noteq> specDevAddr (elems raw)"
  shows "parseDataUplink aes fs vm g raw =
     (Ret ('''', Some [], None), [Infof ''received packet from unknown device, ignoring''])"
proof -
  have cap: "5 \<le> scap raw" using assms(1) by (simp add: slen_def scap_def)
  have "matchDeviceAddr (rev (take 4 (drop 1 (backing raw)))) (devices g) = Inl (ErrMsg ''no match'')"
    using assms(2) by (simp only: devAddr_spec[OF assms(1)] matchDeviceAddr_none)
  then show ?thesis by (rule parse_unknown[OF cap])
qed

theorem unknown_device_dropped_witness:
  "5 \<le> slen foreignFrame
   \<and> matchDeviceAddr (specDevAddr (elems foreignFrame)) (devices exampleGateway) = Inl (ErrMsg ''no match'')
   \<and> parseDataUplink exampleCipher exampleFS (scriptFaults ''boom'') exampleGateway foreignFrame =
     (Ret ('''', Some [], None), [Infof ''received packet from unknown device, ignoring''])"
proof -
  have h1: "5 \<le> slen foreignFrame"
    by (simp add: foreignFrame_def bytesOf_def slen_def)
  have h2: "\<forall>(k, d) \<in> set (devices exampleGateway). Addr d \<noteq> specDevAddr (elems foreignFrame)"
    by (simp add: exampleGateway_def exampleDevice_def foreignFrame_def bytesOf_def specDevAddr_def)
  have h3: "matchDeviceAddr (specDevAddr (elems foreignFrame)) (devices exampleGateway) = Inl (ErrMsg ''no match'')"
    using h2 by (rule matchDeviceAddr_none)
  show ?thesis
    using h1 h3 unknown_device_dropped[OF h1 h2, of exampleCipher exampleFS "scriptFaults ''boom''"]
    by simp
qed

text \<open>
  C10. The registry lookup comes before any other look at the frame: a raw byte
  sequence of length at least 5 whose bytes 1 to 4, reversed, match no device is answered
  with the empty mapping and a nil error, also when it is shorter than 13 bytes, where
  the extraction of the remaining fields would panic.
\<close>

theorem lookup_before_length_checks:
  assumes "5 \<le> slen raw"
    and "\<forall>(k, d) \<in> set (devices g). Addr d \<noteq> specDevAddr (elems raw)"
  shows "fst (parseDataUplink aes fs vm g raw) = Ret ('''', Some [], None)
       \<and> (slen raw < 13 \<longrightarrow> (\<exists>m. frameFieldsOf raw = Panic m))"
proof -
  have cap: "5 \<le> scap raw" using assms(1) by (simp add: slen_def scap_def)
  have "matchDeviceAddr (rev (take 4 (drop 1 (backing raw)))) (devices g) = Inl (ErrMsg ''no match'')"
    using assms(2) by (simp only: devAddr_spec[OF assms(1)] matchDeviceAddr_none)
  then have "fst (parseDataUplink aes fs vm g raw) = Ret ('''', Some [], None)"
    by (simp add: parse_unknown[OF cap])
  moreover have "slen raw < 13 \<longrightarrow> (\<exists>m. frameFieldsOf raw = Panic m)"
    using frameFieldsOf_short[of raw] by simp
  ultimately show ?thesis by simp
qed

theorem lookup_before_length_checks_witness:
  "5 \<le> slen foreignFrame \<and> slen foreignFrame < 13
   \<and> matchDeviceAddr (specDevAddr (elems foreignFrame)) (devices exampleGateway) = Inl (ErrMsg ''no match'')
   \<and> fst (parseDataUplink exampleCipher exampleFS (scriptReturns (VInt 42)) exampleGateway foreignFrame)
       = Ret ('''', Some [], None)
   \<and> frameFieldsOf foreignFrame = Panic ''index out of range''"
proof -
  have h1: "5 \<le> slen foreignFrame" and h1': "slen foreignFrame < 13"
    by (simp_all add: foreignFrame_def bytesOf_def slen_def)
  have h2: "\<forall>(k, d) \<in> set (devices exampleGateway). Addr d \<noteq> specDevAddr (elems foreignFrame)"
    by (simp add: exampleGateway_def exampleDevice_def foreignFrame_def bytesOf_def specDevAddr_def)
  have h3: "matchDeviceAddr (specDevAddr (elems foreignFrame)) (devices exampleGateway) = Inl (ErrMsg ''no match'')"
    using h2 by (rule matchDeviceAddr_none)
  have h4: "frameFieldsOf foreignFrame = Panic ''index out of range''"
    by (simp add: frameFieldsOf_def foreignFrame_def bytesOf_def index_def slen_def bindP_def)
  show ?thesis
    using h1 h1' h3 h4
      lookup_before_length_checks[OF h1 h2, of exampleCipher exampleFS "scriptReturns (VInt 42)"]
    by simp
qed

section \<open>Frame layout\<close>

text \<open>
  C6. For a raw frame of at least 13 + options length bytes, the fields parseDataUplink
  works with are the ones the specification places: the device address is bytes 1 to 4
  reversed, the options length the low 4 bits of byte 5, the frame counter the
  little-endian 16-bit value of bytes 6 and 7, the frame port the byte at index
  8 + options length, the payload the bytes from index 9 + options length up to the
  trailing 4-byte tag. The registry is asked for that address, and decryption and decoding
  receive those fields.
\<close>

theorem fields_at_spec_offsets:
  assumes "13 + specOptionsLength (elems raw) \<le> slen raw"
  shows "devAddrBEOf raw = Ret (specDevAddr (elems raw))
       \<and> (\<exists>f. frameFieldsOf raw = Ret f
              \<and> unat (fr_foptsLength f) = specOptionsLength (elems raw)
              \<and> unat (fr_frameCnt f) = specFrameCounter (elems raw)
              \<and> fr_fPort f = specFramePort (elems raw)
              \<and> elems (fr_framePayload f) = specFramePayload (elems raw)
              \<and> parseDataUplink aes fs vm g raw =
                  (case matchDeviceAddr (specDevAddr (elems raw)) (devices g) of
                     Inl e \<Rightarrow>
                       (Ret ('''', Some [], None),
                        [Infof ''received packet from unknown device, ignoring''])
                   | Inr device \<Rightarrow>
                       decryptAndDecode aes fs vm device (specDevAddr (elems raw)) f))"
proof -
  have len5: "5 \<le> slen raw" using assms by simp
  have cap: "5 \<le> scap raw" using len5 by (simp add: slen_def scap_def)
  have addr: "devAddrBEOf raw = Ret (specDevAddr (elems raw))"
    using len5 by (rule devAddrBEOf_len)
  define f where "f = \<lparr>fr_foptsLength = elems raw ! 5 AND 0x0F,
          fr_frameCnt = ucast (elems raw ! 6) OR push_bit 8 (ucast (elems raw ! 7)),
          fr_fPort = specFramePort (elems raw),
          fr_framePayload = \<lparr>elems = specFramePayload (elems raw),
                             spare = drop (slen raw - 4) (backing raw)\<rparr>\<rparr>"
  have ff: "frameFieldsOf raw = Ret f"
    unfolding f_def using assms by (rule frameFieldsOf_ok)
  have f1: "unat (fr_foptsLength f) = specOptionsLength (elems raw)"
    by (simp add: f_def unat_low4 specOptionsLength_def)
  have f2: "unat (fr_frameCnt f) = specFrameCounter (elems raw)"
    by (simp add: f_def unat_le16 specFrameCounter_def)
  have f3: "fr_fPort f = specFramePort (elems raw)"
    and f4: "elems (fr_framePayload f) = specFramePayload (elems raw)"
    by (simp_all add: f_def)
  have "parseDataUplink aes fs vm g raw =
      (case matchDeviceAddr (specDevAddr (elems raw)) (devices g) of
         Inl e \<Rightarrow> (Ret ('''', Some [], None),
                   [Infof ''received packet from unknown device, ignoring''])
       | Inr device \<Rightarrow> decryptAndDecode aes fs vm device (specDevAddr (elems raw)) f)"
  proof (cases "matchDeviceAddr (specDevAddr (elems raw)) (devices g)")
    case (Inl e)
    then show ?thesis
      using parse_unknown[OF cap, of g e aes fs vm, unfolded devAddr_spec[OF len5]] by simp
  next
    case (Inr device)
    then show ?thesis
      using parse_known[OF cap, of g device aes fs vm, unfolded devAddr_spec[OF len5]]
      by (simp add: ff liftP_def bindIO_def split: prod.split)
  qed
  with addr ff f1 f2 f3 f4 show ?thesis by blast
qed

theorem fields_at_spec_offsets_witness:
  "13 + specOptionsLength (elems exampleFrame) \<le> slen exampleFrame
   \<and> devAddrBEOf exampleFrame = Ret [0x01, 0x02, 0x03, 0x04]
   \<and> (\<exists>f. frameFieldsOf exampleFrame = Ret f
          \<and> unat (fr_foptsLength f) = 0
          \<and> unat (fr_frameCnt f) = 5
          \<and> fr_fPort f = 0x01
          \<and> elems (fr_framePayload f) = [0xAA, 0xBB])"
proof -
  have h: "13 + specOptionsLength (elems exampleFrame) \<le> slen exampleFrame"
    by (simp add: exampleFrame_def bytesOf_def specOptionsLength_def slen_def)
  have s1: "specDevAddr (elems exampleFrame) = [0x01, 0x02, 0x03, 0x04]"
    and s2: "specOptionsLength (elems exampleFrame) = 0"
    and s3: "specFrameCounter (elems exampleFrame) = 5"
    by (simp_all add: exampleFrame_def bytesOf_def specDevAddr_def specOptionsLength_def
        specFrameCounter_def)
  have s4: "specFramePort (elems exampleFrame) = 0x01"
    by (simp add: specFramePort_def s2) (simp add: exampleFrame_def bytesOf_def)
  have s5: "specFramePayload (elems exampleFrame) = [0xAA, 0xBB]"
    by (simp add: specFramePayload_def s2) (simp add: exampleFrame_def bytesOf_def upt_rec)
  show ?thesis
    using h fields_at_spec_offsets[OF h, of exampleCipher exampleFS "scriptReturns (VInt 42)" exampleGateway]
    unfolding s1 s2 s3 s4 s5 by blast
qed

section \<open>Frames that are too short\<close>

text \<open>
  The frame of the known device that ends after the frame-control byte has 6 bytes. The
  pipeline does not answer it with an error value: the slice expression of line 39 panics.
\<close>

theorem short_frame_panics:
  "slen shortFrame < 12
   \<and> parseDataUplink exampleCipher exampleFS (scriptReturns (VInt 42)) exampleGateway shortFrame
     = (Panic ''slice bounds out of range'', [])"
  by code_simp

text \<open>
  C2, as the code has it. parseDataUplink compares no length and has no error for a
  malformed frame. A raw byte sequence shorter than 12 bytes, or shorter than 12 bytes
  plus the options length that byte 5 announces, never comes back with an error value:
  either an index or slice expression panics, or (capacity at least 5, address bytes of
  no registered device) the frame is dropped as one of an unknown device, with the empty
  mapping and a nil error.
\<close>

theorem short_frame_no_typed_error:
  assumes "slen raw < 12 \<or> slen raw < 12 + announcedOptions raw"
  shows "(\<exists>m. parseDataUplink aes fs vm g raw = (Panic m, []))
       \<or> (\<exists>a. devAddrBEOf raw = Ret a
             \<and> matchDeviceAddr a (devices g) = Inl (ErrMsg ''no match'')
             \<and> parseDataUplink aes fs vm g raw =
                 (Ret ('''', Some [], None),
                  [Infof ''received packet from unknown device, ignoring'']))"
proof (cases "5 \<le> scap raw")
  case False
  then show ?thesis by (simp add: parse_small)
next
  case True
  let ?a = "rev (take 4 (drop 1 (backing raw)))"
  have short: "slen raw < 13 + announcedOptions raw" using assms by auto
  show ?thesis
  proof (cases "matchDeviceAddr ?a (devices g)")
    case (Inl e)
    moreover have "e = ErrMsg ''no match''"
      using Inl by (rule matchDeviceAddr_Inl)
    ultimately show ?thesis
      using True parse_unknown[OF True, of g e aes fs vm] devAddrBEOf_cap[OF True] by simp
  next
    case (Inr device)
    then show ?thesis using parse_known_short[OF True Inr short] by blast
  qed
qed

theorem short_frame_no_typed_error_witness:
  "slen shortFrame < 12
   \<and> ((\<exists>m. parseDataUplink exampleCipher exampleFS (scriptReturns (VInt 42)) exampleGateway shortFrame
            = (Panic m, []))
      \<or> (\<exists>a. devAddrBEOf shortFrame = Ret a
            \<and> matchDeviceAddr a (devices exampleGateway) = Inl (ErrMsg ''no match'')
            \<and> parseDataUplink exampleCipher exampleFS (scriptReturns (VInt 42)) exampleGateway shortFrame =
                (Ret ('''', Some [], None),
                 [Infof ''received packet from unknown device, ignoring''])))"
proof -
  have h: "slen shortFrame < 12" by (simp add: shortFrame_def bytesOf_def slen_def)
  then have h': "slen shortFrame < 12 \<or> slen shortFrame < 12 + announcedOptions shortFrame" by simp
  show ?thesis
    using h short_frame_no_typed_error[OF h', of exampleCipher exampleFS "scriptReturns (VInt 42)" exampleGateway]
    by blast
qed

section \<open>Payload decryption\<close>

text \<open>
  The address that parseDataUplink passes on always has 4 bytes.
\<close>

lemma devAddrBEOf_length: "devAddrBEOf raw = Ret a \<Longrightarrow> length a = 4"
  by (auto simp: devAddrBEOf_def sliceOf_def bindP_def reverseByteArray_def scap_def backing_def
      split: if_splits)

text \<open>
  C7. With the 4-byte address of the pipeline, the decryption step of parseDataUplink
  succeeds for a 16-byte application session key on every ciphertext, and returns as many
  bytes as it was given; when it does not succeed, the key is shorter than 16 bytes. The
  content of the ciphertext never decides.
\<close>

theorem decrypt_fails_only_on_key_length:
  assumes "length devAddrBE = 4"
  shows "(length (AppSKey device) = 16 \<longrightarrow>
            (\<exists>pt. decryptStep aes device devAddrBE cnt ct = Ret (Inr pt) \<and> length pt = slen ct))
       \<and> ((\<forall>pt. decryptStep aes device devAddrBE cnt ct \<noteq> Ret (Inr pt)) \<longrightarrow>
            length (AppSKey device) < 16)"
proof -
  have "\<exists>pt. decryptStep aes device devAddrBE cnt ct = Ret (Inr pt) \<and> length pt = slen ct"
    if "16 \<le> length (AppSKey device)"
    using assms that by (rule decryptStep_ok)
  then show ?thesis by (metis le_refl not_le)
qed

theorem decrypt_fails_only_on_key_length_witness:
  "length [0x01, 0x02, 0x03, 0x04 :: byte] = 4 \<and> length (AppSKey exampleDevice) = 16
   \<and> (\<exists>pt. decryptStep exampleCipher exampleDevice [0x01, 0x02, 0x03, 0x04] 5 (bytesOf [0xAA, 0xBB])
              = Ret (Inr pt) \<and> length pt = slen (bytesOf [0xAA, 0xBB]))"
proof -
  have h: "length [0x01, 0x02, 0x03, 0x04 :: byte] = 4" by simp
  have k: "length (AppSKey exampleDevice) = 16"
    by (simp add: exampleDevice_def exampleKey_def)
  show ?thesis
    using h k decrypt_fails_only_on_key_length[OF h, of exampleDevice exampleCipher 5 "bytesOf [0xAA, 0xBB]"]
    by blast
qed

text \<open>
  C8. Under a 16-byte key, and the same address and frame counter, DecryptUplink gives
  back the plaintext from the ciphertext that the cooperating encryption routine
  produced, for every block cipher.
\<close>

theorem uplink_roundtrip:
  assumes "length key = 16"
  shows "\<exists>ct. EncryptUplink aes key addr fCnt pt = Inr ct
            \<and> DecryptUplink aes key addr fCnt ct = Inr pt"
  using uplinkCipher_involution[OF assms, of aes addr fCnt pt]
  by (auto simp: EncryptUplink_def DecryptUplink_def)

theorem uplink_roundtrip_witness:
  "length exampleKey = 16
   \<and> (\<exists>ct. EncryptUplink exampleCipher exampleKey [0x01, 0x02, 0x03, 0x04] 5 [0x11, 0x22] = Inr ct
          \<and> DecryptUplink exampleCipher exampleKey [0x01, 0x02, 0x03, 0x04] 5 ct = Inr [0x11, 0x22])"
proof -
  have k: "length exampleKey = 16" by (simp add: exampleKey_def)
  show ?thesis
    using k uplink_roundtrip[OF k, of exampleCipher "[0x01, 0x02, 0x03, 0x04]" 5 "[0x11, 0x22]"]
    by blast
qed

section \<open>The decoder and its failures\<close>

text \<open>
  A panic of the interpreter at any stage of executeDecoder (creating the instance,
  setting a variable, running the script, exporting the value) is a panic of the body.
\<close>

lemma body_panic_New:
  "otto_New vm = Panic m \<Longrightarrow> executeDecoderBody vm script vars = (Panic m, [OttoNew])"
  by (simp add: executeDecoderBody_def bindIO_def emit_def liftP_def bindP_def)

lemma body_panic_setVars:
  "otto_New vm = Ret s0 \<Longrightarrow> otto_SetStackDepthLimit vm s0 32 = Ret s1
   \<Longrightarrow> setVars vm s1 vars = Panic m
   \<Longrightarrow> executeDecoderBody vm script vars = (Panic m, [OttoNew])"
  by (simp add: executeDecoderBody_def bindIO_def emit_def liftP_def bindP_def)

lemma body_panic_Run:
  "otto_New vm = Ret s0 \<Longrightarrow> otto_SetStackDepthLimit vm s0 32 = Ret s1
   \<Longrightarrow> setVars vm s1 vars = Ret (Inr s2) \<Longrightarrow> otto_Run vm s2 script = Panic m
   \<Longrightarrow> executeDecoderBody vm script vars = (Panic m, [OttoNew])"
  by (simp add: executeDecoderBody_def bindIO_def emit_def liftP_def bindP_def)

lemma body_panic_Export:
  "otto_New vm = Ret s0 \<Longrightarrow> otto_SetStackDepthLimit vm s0 32 = Ret s1
   \<Longrightarrow> setVars vm s1 vars = Ret (Inr s2) \<Longrightarrow> otto_Run vm s2 script = Ret (val, None)
   \<Longrightarrow> otto_Export vm val = Panic m
   \<Longrightarrow> executeDecoderBody vm script vars = (Panic m, [OttoNew])"
  by (simp add: executeDecoderBody_def bindIO_def emit_def liftP_def bindP_def)

text \<open>
  C9. executeDecoder returns for every interpreter, script and bindings: it never
  panics. When its body panics with a message, the deferred function turns that into
  the return of a nil value and a non-nil error that carries the message.
\<close>

theorem executeDecoder_recovers_every_panic:
  "(\<exists>out err t. executeDecoder vm script vars = (Ret (out, err), t))
   \<and> (\<forall>m t. executeDecoderBody vm script vars = (Panic m, t) \<longrightarrow>
          executeDecoder vm script vars = (Ret (VNil, Some (ErrMsg m)), t))"
  using executeDecoder_returns[of vm script vars]
  by (simp add: executeDecoder_def recoverDeferred_def)

theorem executeDecoder_recovers_every_panic_witness:
  "executeDecoderBody (scriptFaults ''boom'') (wrapScript ''x'') (decoderVars 1 [0xBB, 0xAA])
     = (Panic ''boom'', [OttoNew])
   \<and> executeDecoder (scriptFaults ''boom'') (wrapScript ''x'') (decoderVars 1 [0xBB, 0xAA])
     = (Ret (VNil, Some (ErrMsg ''boom'')), [OttoNew])"
proof -
  have b: "executeDecoderBody (scriptFaults ''boom'') (wrapScript ''x'') (decoderVars 1 [0xBB, 0xAA])
     = (Panic ''boom'', [OttoNew])"
    by (simp add: executeDecoderBody_def scriptFaults_def decoderVars_def bindIO_def emit_def
        liftP_def bindP_def)
  show ?thesis
    using b executeDecoder_recovers_every_panic[of "scriptFaults ''boom''" "wrapScript ''x''"
        "decoderVars 1 [0xBB, 0xAA]"]
    by blast
qed

text \<open>
  A script whose result is a mapping nested in a mapping: the value is not a flat
  string-keyed mapping, and convertBinaryToMap accepts it, with a nil error.
\<close>

theorem nested_mapping_accepted:
  "\<not> flatMapping (VMap [(''a'', VMap [(''b'', VInt 1)])])
   \<and> executeDecoder (scriptReturns (VMap [(''a'', VMap [(''b'', VInt 1)])]))
        (wrapScript ''function Decode(fPort, bytes) { return {a: {b: 1}}; }'')
        (decoderVars 0x01 [0xBB, 0xAA])
     = (Ret (VMap [(''a'', VMap [(''b'', VInt 1)])], None), [OttoNew])
   \<and> convertBinaryToMap (scriptReturns (VMap [(''a'', VMap [(''b'', VInt 1)])])) 0x01
        ''function Decode(fPort, bytes) { return {a: {b: 1}}; }'' [0xBB, 0xAA]
     = (Ret (Some [(''a'', VMap [(''b'', VInt 1)])], None), [OttoNew])"
  by code_simp

text \<open>
  C5, as the code has it. When the execution of the script produces a value that is
  not a string-keyed mapping (a number, a list, nil for undefined), convertBinaryToMap
  returns the empty readings mapping and the error "decoder returned unexpected data
  type". A string-keyed mapping, flat or nested, is returned as the readings, with a nil
  error: the type switch looks at the outermost value only.
\<close>

theorem non_mapping_rejected:
  assumes "executeDecoder vm (wrapScript decodeScript) (decoderVars fPort b) = (Ret (v, None), t)"
  shows "(\<not> isMapping v \<longrightarrow>
            convertBinaryToMap vm fPort decodeScript b =
              (Ret (Some [], Some (ErrMsg ''decoder returned unexpected data type'')), t))
       \<and> (\<forall>m. v = VMap m \<longrightarrow>
            convertBinaryToMap vm fPort decodeScript b = (Ret (Some m, None), t))"
  using assms by (cases v) (simp_all add: convertBinaryToMap_def bindIO_def ret_def)

theorem non_mapping_rejected_witness:
  "executeDecoder (scriptReturns (VInt 42)) (wrapScript ''function Decode(fPort, bytes) { return 42; }'')
      (decoderVars 0x01 [0xBB, 0xAA]) = (Ret (VInt 42, None), [OttoNew])
   \<and> convertBinaryToMap (scriptReturns (VInt 42)) 0x01
      ''function Decode(fPort, bytes) { return 42; }'' [0xBB, 0xAA]
     = (Ret (Some [], Some (ErrMsg ''decoder returned unexpected data type'')), [OttoNew])"
proof -
  have h: "executeDecoder (scriptReturns (VInt 42))
      (wrapScript ''function Decode(fPort, bytes) { return 42; }'')
      (decoderVars 0x01 [0xBB, 0xAA]) = (Ret (VInt 42, None), [OttoNew])"
    by (simp add: executeDecoder_def recoverDeferred_def executeDecoderBody_def scriptReturns_def
        decoderVars_def bindIO_def emit_def liftP_def bindP_def)
  show ?thesis
    using h non_mapping_rejected[OF h] by simp
qed

text \<open>
  decodePayload returns a nil error whenever the decoder file can be read, whatever
  convertBinaryToMap returned.
\<close>

lemma readable_decoder_never_errors:
  assumes "fs path = Inr content"
  shows "\<exists>r t. decodePayload fs vm fPort path data = (Ret (r, None), t)"
proof -
  obtain r e t where "convertBinaryToMap vm fPort content data = (Ret (r, e), t)"
    using convertBinaryToMap_returns by blast
  then have "decodePayload fs vm fPort path data = (Ret (r, None), ReadFile path # t)"
    using assms by (intro decodePayload_drops_error)
  then show ?thesis by blast
qed

text \<open>
  C1, evaluated on the frame of the known device with a decoder script that returns the
  number 42. The decode step fails: convertBinaryToMap returns the error "decoder
  returned unexpected data type". parseDataUplink nevertheless returns the device name,
  an empty mapping and a nil error.
\<close>

theorem decode_failure_returned_as_success:
  "convertBinaryToMap (scriptReturns (VInt 42)) 0x01
       ''function Decode(fPort, bytes) { return 42; }'' [0xBB, 0xAA]
     = (Ret (Some [], Some (ErrMsg ''decoder returned unexpected data type'')), [OttoNew])
   \<and> parseDataUplink exampleCipher exampleFS (scriptReturns (VInt 42)) exampleGateway exampleFrame
     = (Ret (''sensor1'', Some [], None), [ReadFile ''/decoders/sensor1.js'', OttoNew])"
  by code_simp

text \<open>
  The same with a script that throws: the error of the interpreter reaches
  convertBinaryToMap and stops there; the caller gets a nil mapping and a nil error.
\<close>

lemma thrown_error_returned_as_success:
  "convertBinaryToMap (scriptThrows ''ReferenceError: missing is not defined'') 0x01
       ''function Decode(fPort, bytes) { return missing; }'' [0xBB, 0xAA]
     = (Ret (None, Some (ErrMsg ''ReferenceError: missing is not defined'')), [OttoNew])
   \<and> parseDataUplink exampleCipher throwingFS (scriptThrows ''ReferenceError: missing is not defined'')
       exampleGateway exampleFrame
     = (Ret (''sensor1'', None, None), [ReadFile ''/decoders/sensor1.js'', OttoNew])"
  by code_simp

text \<open>
  In general: a frame that is long enough, from a registered device with a key of at
  least 16 bytes and a readable decoder file, is answered with the device name and a nil
  error, whatever the interpreter did with the script.
\<close>

lemma known_device_never_decode_error:
  assumes len: "13 + specOptionsLength (elems raw) \<le> slen raw"
    and dev: "matchDeviceAddr (specDevAddr (elems raw)) (devices g) = Inr device"
    and key: "16 \<le> length (AppSKey device)"
    and readable: "fs (DecoderPath device) = Inr content"
  shows "\<exists>r t. parseDataUplink aes fs vm g raw = (Ret (name device, r, None), t)"
proof -
  have len5: "5 \<le> slen raw" using len by simp
  have cap: "5 \<le> scap raw" using len5 by (simp add: slen_def scap_def)
  obtain f where ff: "frameFieldsOf raw = Ret f"
    using frameFieldsOf_ok[OF len] by blast
  have a4: "length (specDevAddr (elems raw)) = 4" by (simp add: specDevAddr_def)
  obtain pt where pt:
    "decryptStep aes device (specDevAddr (elems raw)) (fr_frameCnt f) (fr_framePayload f) = Ret (Inr pt)"
    using decryptStep_ok[OF a4 key] by blast
  obtain r t where dp: "decodePayload fs vm (fr_fPort f) (DecoderPath device) pt = (Ret (r, None), t)"
    using readable_decoder_never_errors[of fs "DecoderPath device" content vm "fr_fPort f" pt] readable
    by blast
  have "parseDataUplink aes fs vm g raw =
      bindIO (liftP (frameFieldsOf raw)) (decryptAndDecode aes fs vm device (specDevAddr (elems raw)))"
    using parse_known[OF cap, of g device aes fs vm, unfolded devAddr_spec[OF len5]] dev by simp
  then have "parseDataUplink aes fs vm g raw = (Ret (name device, r, None), t)"
    by (simp add: ff decryptAndDecode_def pt dp liftP_def bindIO_def ret_def)
  then show ?thesis by blast
qed

end
